theory Spec2Isabelle
  imports Complex_Main
begin

section \<open>The asynchronous memory monitor and its op hook\<close>

text \<open>
  A shallow embedding of \<^verbatim>\<open>pytorchmemtracer/ophooks/_memtracer_ophook.py\<close>:
  the class \<^verbatim>\<open>AsyncMemoryMonitor\<close> and the hook \<^verbatim>\<open>MemTracerOpHook\<close> that drives it.

  Conventions of the model.
  \<^item> Every method takes the object and returns the outcome of the call together with the
    object after the call, \<open>(error + result) \<times> object\<close>: a Python exception leaves the
    assignments made before it in place, so the state after a raise is part of the model.
  \<^item> \<^verbatim>\<open>time()\<close> is an input of the call that reads the clock (the argument \<open>now\<close>);
    time stamps are real numbers, the idealisation of Python's floats.
  \<^item> \<^verbatim>\<open>get_sys_memory_used(dev)\<close> is called with a CUDA device only and returns
    \<^verbatim>\<open>torch.cuda.memory_allocated()\<close>, an integer supplied by the allocator; the
    value a sampling tick reads is an input of that tick. The query is taken to
    answer: an exception raised inside the library call is outside the model.
  \<^item> The thread pool has one worker (\<^verbatim>\<open>max_workers=1\<close>), so submitted tasks run
    one after the other in submission order. The pool is the list of the futures
    submitted so far; a future is the position of its task in that list.
  \<^item> The worker thread and the caller interleave. One atomic step of the worker is one
    evaluation of the loop test of \<^verbatim>\<open>_measure_usage\<close> together with what follows
    it: the loop body when the flag is set, the \<^verbatim>\<open>return\<close> when it is cleared.
\<close>

subsection \<open>Data\<close>

datatype error = AttributeError | ValueError | Blocked

text \<open>
  A task of the pool: \<open>Running a\<close> is a call of \<^verbatim>\<open>_measure_usage\<close> that has not
  returned yet, with \<^verbatim>\<open>max_usage\<close> equal to \<open>a\<close> (a task still waiting in the
  queue is \<open>Running 0\<close>: it will set \<^verbatim>\<open>max_usage = 0\<close> before its first loop
  test); \<open>Finished r\<close> is a call that returned \<open>r\<close>.
\<close>

datatype future = Running int | Finished int

record async_memory_monitor =
  keep_measuring :: bool
  executor :: "future list"
  monitor_thread :: "nat option"
  interval :: real
  time_stamps :: "real list"
  mem_stats :: "int list"

record module =
  training :: bool

record mem_tracer_op_hook =
  async_mem_monitor :: async_memory_monitor

subsection \<open>AsyncMemoryMonitor\<close>

definition AsyncMemoryMonitor_init :: "int \<Rightarrow> async_memory_monitor" where
  "AsyncMemoryMonitor_init pwr =
     \<lparr> keep_measuring = False,
       executor = [],
       monitor_thread = None,
       interval = 1 / (10 powi pwr),
       time_stamps = [],
       mem_stats = [] \<rparr>"

definition set_interval :: "int \<Rightarrow> async_memory_monitor \<Rightarrow> async_memory_monitor" where
  "set_interval pwr m = m\<lparr>interval := 1 / (10 powi pwr)\<rparr>"

definition is_measuring :: "async_memory_monitor \<Rightarrow> bool" where
  "is_measuring m = keep_measuring m"

text \<open>
  \<^verbatim>\<open>start\<close>: set the flag and submit \<^verbatim>\<open>_measure_usage\<close> to the pool. The new
  future is the last position of the extended list.
\<close>

definition start :: "async_memory_monitor \<Rightarrow> async_memory_monitor" where
  "start m =
     m\<lparr> keep_measuring := True,
        executor := executor m @ [Running 0],
        monitor_thread := Some (length (executor m)) \<rparr>"

text \<open>
  The worker. It serves the first task that has not returned. With the flag set, one
  step is one pass through the loop body,
  \<^verbatim>\<open>max_usage = max(max_usage, get_sys_memory_used(dev))\<close>, on the sample \<open>s\<close>;
  with the flag cleared, the loop test fails and the task returns \<^verbatim>\<open>max_usage\<close>.
\<close>

fun worker_sample :: "int \<Rightarrow> future list \<Rightarrow> future list" where
  "worker_sample s [] = []"
| "worker_sample s (Finished r # fs) = Finished r # worker_sample s fs"
| "worker_sample s (Running a # fs) = Running (max a s) # fs"

fun worker_return :: "future list \<Rightarrow> future list" where
  "worker_return [] = []"
| "worker_return (Finished r # fs) = Finished r # worker_return fs"
| "worker_return (Running a # fs) = Finished a # fs"

definition tick :: "int \<Rightarrow> async_memory_monitor \<Rightarrow> async_memory_monitor" where
  "tick s m =
     m\<lparr>executor :=
         (if keep_measuring m then worker_sample s (executor m)
          else worker_return (executor m))\<rparr>"

definition ticks :: "int list \<Rightarrow> async_memory_monitor \<Rightarrow> async_memory_monitor" where
  "ticks ss m = foldl (\<lambda>m s. tick s m) m ss"

text \<open>
  The loop of \<^verbatim>\<open>_measure_usage\<close> read sequentially: the value it returns when the
  flag is seen set exactly \<open>length ss\<close> times and the provider answers \<open>ss\<close>.
\<close>

definition measure_usage :: "int list \<Rightarrow> int" where
  "measure_usage ss = foldl max 0 ss"

text \<open>
  \<^verbatim>\<open>Future.result()\<close>, called by \<^verbatim>\<open>finish\<close> after it has cleared the flag: the
  caller waits while the worker goes on, and every worker step is then a return. A
  position outside the pool is a future nobody will ever complete: the call does not
  return (\<open>None\<close>).
\<close>

fun running :: "future \<Rightarrow> bool" where
  "running (Running a) = True"
| "running (Finished r) = False"

function result :: "nat \<Rightarrow> future list \<Rightarrow> (int \<times> future list) option" where
  "result fid ex =
     (if fid < length ex then
        (case ex ! fid of
           Finished r \<Rightarrow> Some (r, ex)
         | Running a \<Rightarrow> result fid (worker_return ex))
      else None)"
  by pat_completeness auto

lemma worker_return_running:
  "\<exists>f \<in> set ex. running f \<Longrightarrow>
   length (filter running (worker_return ex)) < length (filter running ex)"
  by (induction ex rule: worker_return.induct) auto

lemma nth_running:
  "fid < length ex \<Longrightarrow> ex ! fid = Running a \<Longrightarrow> \<exists>f \<in> set ex. running f"
  by (metis nth_mem running.simps(1))

termination result
  by (relation "measure (\<lambda>(fid, ex). length (filter running ex))")
     (auto intro!: worker_return_running dest: nth_running)

text \<open>
  \<^verbatim>\<open>finish\<close>. The test \<^verbatim>\<open>self.keep_measuring is False\<close> returns 0 at once. Otherwise
  the flag is cleared first; \<^verbatim>\<open>self.monitor_thread.result()\<close> raises AttributeError
  when \<^verbatim>\<open>monitor_thread\<close> is \<^verbatim>\<open>None\<close>, and the flag stays cleared; when the
  future has returned, the handle is dropped and the pair \<^verbatim>\<open>(time(), max_usage)\<close>
  is appended, one element to each list. The outcome \<open>Blocked\<close> stands for a call
  that waits for ever on a future outside the pool.
\<close>

definition finish :: "real \<Rightarrow> async_memory_monitor \<Rightarrow> (error + int) \<times> async_memory_monitor" where
  "finish now m =
     (if \<not> keep_measuring m then (Inr 0, m)
      else
        let m1 = m\<lparr>keep_measuring := False\<rparr> in
        (case monitor_thread m1 of
           None \<Rightarrow> (Inl AttributeError, m1)
         | Some fid \<Rightarrow>
             (case result fid (executor m1) of
                None \<Rightarrow> (Inl Blocked, m1)
              | Some (max_usage, ex) \<Rightarrow>
                  (Inr max_usage,
                   m1\<lparr> executor := ex,
                       monitor_thread := None,
                       time_stamps := time_stamps m1 @ [now],
                       mem_stats := mem_stats m1 @ [max_usage] \<rparr>))))"

text \<open>
  \<^verbatim>\<open>state_dict\<close> is the pair of the two lists under their keys; \<^verbatim>\<open>save\<close> pickles
  it into the named file and changes nothing of the monitor: its effect is the write
  it performs, returned here as the file name and the content.
\<close>

definition state_dict :: "async_memory_monitor \<Rightarrow> (string \<times> real list) \<times> (string \<times> int list)" where
  "state_dict m = ((''time_stamps'', time_stamps m), (''mem_stats'', mem_stats m))"

definition save ::
  "string \<Rightarrow> async_memory_monitor \<Rightarrow> string \<times> (string \<times> real list) \<times> (string \<times> int list)" where
  "save filename m = (filename, state_dict m)"

subsection \<open>MemTracerOpHook\<close>

definition MemTracerOpHook_init :: mem_tracer_op_hook where
  "MemTracerOpHook_init = \<lparr> async_mem_monitor = AsyncMemoryMonitor_init 10 \<rparr>"

text \<open>
  The handlers. Each reads the clock at most once, inside \<^verbatim>\<open>finish\<close>. An exception
  of \<^verbatim>\<open>finish\<close> leaves the handler at once, with the monitor as \<^verbatim>\<open>finish\<close> left it.
\<close>

definition pre_fwd_exec ::
  "module \<Rightarrow> real \<Rightarrow> mem_tracer_op_hook \<Rightarrow> (error + unit) \<times> mem_tracer_op_hook" where
  "pre_fwd_exec mdl now h =
     (if training mdl then
        (if is_measuring (async_mem_monitor h) then
           (case finish now (async_mem_monitor h) of
              (Inl e, m) \<Rightarrow> (Inl e, h\<lparr>async_mem_monitor := m\<rparr>)
            | (Inr u, m) \<Rightarrow> (Inr (), h\<lparr>async_mem_monitor := start m\<rparr>))
         else (Inr (), h\<lparr>async_mem_monitor := start (async_mem_monitor h)\<rparr>))
      else (Inr (), h))"

definition post_fwd_exec ::
  "module \<Rightarrow> real \<Rightarrow> mem_tracer_op_hook \<Rightarrow> (error + unit) \<times> mem_tracer_op_hook" where
  "post_fwd_exec mdl now h =
     (if training mdl then
        (case finish now (async_mem_monitor h) of
           (Inl e, m) \<Rightarrow> (Inl e, h\<lparr>async_mem_monitor := m\<rparr>)
         | (Inr u, m) \<Rightarrow> (Inr (), h\<lparr>async_mem_monitor := m\<rparr>))
      else (Inr (), h))"

definition pre_bwd_exec ::
  "module \<Rightarrow> real \<Rightarrow> mem_tracer_op_hook \<Rightarrow> (error + unit) \<times> mem_tracer_op_hook" where
  "pre_bwd_exec mdl now h =
     (if training mdl then
        (if is_measuring (async_mem_monitor h) then
           (case finish now (async_mem_monitor h) of
              (Inl e, m) \<Rightarrow> (Inl e, h\<lparr>async_mem_monitor := m\<rparr>)
            | (Inr u, m) \<Rightarrow> (Inr (), h\<lparr>async_mem_monitor := start m\<rparr>))
         else (Inr (), h\<lparr>async_mem_monitor := start (async_mem_monitor h)\<rparr>))
      else (Inr (), h))"

definition post_bwd_exec ::
  "module \<Rightarrow> real \<Rightarrow> mem_tracer_op_hook \<Rightarrow> (error + unit) \<times> mem_tracer_op_hook" where
  "post_bwd_exec mdl now h =
     (if training mdl then
        (if is_measuring (async_mem_monitor h) then
           (case finish now (async_mem_monitor h) of
              (Inl e, m) \<Rightarrow> (Inl e, h\<lparr>async_mem_monitor := m\<rparr>)
            | (Inr u, m) \<Rightarrow> (Inr (), h\<lparr>async_mem_monitor := m\<rparr>))
         else (Inr (), h))
      else (Inr (), h))"

text \<open>\<^verbatim>\<open>post_iter\<close> takes no module: it has no training flag to test.\<close>

definition post_iter :: "real \<Rightarrow> mem_tracer_op_hook \<Rightarrow> (error + unit) \<times> mem_tracer_op_hook" where
  "post_iter now h =
     (if is_measuring (async_mem_monitor h) then
        (case finish now (async_mem_monitor h) of
           (Inl e, m) \<Rightarrow> (Inl e, h\<lparr>async_mem_monitor := m\<rparr>)
         | (Inr u, m) \<Rightarrow> (Inr (), h\<lparr>async_mem_monitor := m\<rparr>))
      else (Inr (), h))"

definition save_results ::
  "string \<Rightarrow> mem_tracer_op_hook \<Rightarrow> string \<times> (string \<times> real list) \<times> (string \<times> int list)" where
  "save_results filename h = save filename (async_mem_monitor h)"

text \<open>
  Python's \<^verbatim>\<open>min\<close> of a list: ValueError on the empty list, otherwise a left-to-right
  scan that keeps the smaller element.
\<close>

fun py_min :: "'a::linorder list \<Rightarrow> error + 'a" where
  "py_min [] = Inl ValueError"
| "py_min (x # xs) = Inr (foldl min x xs)"

text \<open>
  \<^verbatim>\<open>show_mem_stats\<close>. The time stamps are rewritten before the minimum of
  \<^verbatim>\<open>mem_stats\<close> is taken, so an error of the second \<^verbatim>\<open>min\<close> leaves the first
  list rewritten. The result of a normal run is what the two \<^verbatim>\<open>print\<close> calls write.
\<close>

definition show_mem_stats ::
  "mem_tracer_op_hook \<Rightarrow> (error + real list \<times> int list) \<times> mem_tracer_op_hook" where
  "show_mem_stats h =
     (case py_min (time_stamps (async_mem_monitor h)) of
        Inl e \<Rightarrow> (Inl e, h)
      | Inr start_timestamp \<Rightarrow>
          let m1 = (async_mem_monitor h)
                \<lparr>time_stamps :=
                   map (\<lambda>elem. elem - start_timestamp) (time_stamps (async_mem_monitor h))\<rparr>
          in (case py_min (mem_stats m1) of
                Inl e \<Rightarrow> (Inl e, h\<lparr>async_mem_monitor := m1\<rparr>)
              | Inr min_mem_used \<Rightarrow>
                  let m2 = m1\<lparr>mem_stats := map (\<lambda>elem. elem - min_mem_used) (mem_stats m1)\<rparr>
                  in (Inr (time_stamps m2, mem_stats m2), h\<lparr>async_mem_monitor := m2\<rparr>)))"

subsection \<open>Runs of calls\<close>

text \<open>
  The calls a client and the worker thread can make on one hook and its monitor, and
  the object each call leaves behind. A run is a sequence of such calls.
\<close>

datatype call =
    SetInterval int
  | IsMeasuring
  | Start
  | Finish real
  | Tick int
  | StateDict
  | Save string
  | PreFwdExec module real
  | PostFwdExec module real
  | PreBwdExec module real
  | PostBwdExec module real
  | PostIter real
  | SaveResults string
  | ShowMemStats

fun exec :: "call \<Rightarrow> mem_tracer_op_hook \<Rightarrow> mem_tracer_op_hook" where
  "exec (SetInterval pwr) h = h\<lparr>async_mem_monitor := set_interval pwr (async_mem_monitor h)\<rparr>"
| "exec IsMeasuring h = h"
| "exec Start h = h\<lparr>async_mem_monitor := start (async_mem_monitor h)\<rparr>"
| "exec (Finish now) h = h\<lparr>async_mem_monitor := snd (finish now (async_mem_monitor h))\<rparr>"
| "exec (Tick s) h = h\<lparr>async_mem_monitor := tick s (async_mem_monitor h)\<rparr>"
| "exec StateDict h = h"
| "exec (Save filename) h = h"
| "exec (PreFwdExec mdl now) h = snd (pre_fwd_exec mdl now h)"
| "exec (PostFwdExec mdl now) h = snd (post_fwd_exec mdl now h)"
| "exec (PreBwdExec mdl now) h = snd (pre_bwd_exec mdl now h)"
| "exec (PostBwdExec mdl now) h = snd (post_bwd_exec mdl now h)"
| "exec (PostIter now) h = snd (post_iter now h)"
| "exec (SaveResults filename) h = h"
| "exec ShowMemStats h = snd (show_mem_stats h)"

definition run :: "call list \<Rightarrow> mem_tracer_op_hook \<Rightarrow> mem_tracer_op_hook" where
  "run cs h = foldl (\<lambda>h c. exec c h) h cs"

subsection \<open>Invariants\<close>

text \<open>The two lists of the series have the same length.\<close>

definition series_inv :: "mem_tracer_op_hook \<Rightarrow> bool" where
  "series_inv h =
     (length (time_stamps (async_mem_monitor h)) = length (mem_stats (async_mem_monitor h)))"

text \<open>The value \<^verbatim>\<open>max_usage\<close> of a task, running or returned.\<close>

fun max_usage_of :: "future \<Rightarrow> int" where
  "max_usage_of (Running a) = a"
| "max_usage_of (Finished r) = r"

text \<open>
  The single worker serves the tasks in order: every task that has returned stands
  before every task that has not.
\<close>

fun fifo :: "future list \<Rightarrow> bool" where
  "fifo [] = True"
| "fifo (Finished r # fs) = fifo fs"
| "fifo (Running a # fs) = list_all running fs"

text \<open>
  The shape of a monitor that the calls above produce from a new one. While it
  measures, \<^verbatim>\<open>monitor_thread\<close> is the task submitted last, which has not returned;
  while it is idle, there is no handle and every task has returned.
\<close>

definition wf_monitor :: "async_memory_monitor \<Rightarrow> bool" where
  "wf_monitor m =
     (fifo (executor m) \<and>
      (if keep_measuring m then
         executor m \<noteq> [] \<and> monitor_thread m = Some (length (executor m) - 1) \<and>
         running (last (executor m))
       else monitor_thread m = None \<and> list_all (\<lambda>f. \<not> running f) (executor m)))"

section \<open>Properties\<close>

subsection \<open>The pool and the join\<close>

declare result.simps [simp del]

lemma length_worker_return [simp]: "length (worker_return ex) = length ex"
  by (induction ex rule: worker_return.induct) auto

lemma length_worker_sample [simp]: "length (worker_sample s ex) = length ex"
  by (induction s ex rule: worker_sample.induct) auto

lemma max_usage_of_worker_return:
  "i < length ex \<Longrightarrow> max_usage_of (worker_return ex ! i) = max_usage_of (ex ! i)"
proof (induction ex arbitrary: i rule: worker_return.induct)
  case 1
  then show ?case by simp
next
  case (2 r fs)
  then show ?case by (cases i) auto
next
  case (3 a fs)
  then show ?case by (cases i) auto
qed

lemma result_returns:
  "fid < length ex \<Longrightarrow> \<exists>ex'. result fid ex = Some (max_usage_of (ex ! fid), ex')"
proof (induction fid ex rule: result.induct)
  case (1 fid ex)
  show ?case
  proof (cases "ex ! fid")
    case (Running a)
    with 1 show ?thesis
      by (subst result.simps) (simp add: max_usage_of_worker_return)
  next
    case (Finished r)
    with 1 show ?thesis
      by (subst result.simps) simp
  qed
qed

lemma result_length:
  "result fid ex = Some (r, ex') \<Longrightarrow> length ex' = length ex"
proof (induction fid ex rule: result.induct)
  case (1 fid ex)
  from "1.prems" show ?case
    by (subst (asm) result.simps) (auto split: if_splits future.splits dest: "1.IH")
qed

lemma result_finished:
  "result fid ex = Some (r, ex') \<Longrightarrow> ex' ! fid = Finished r"
proof (induction fid ex rule: result.induct)
  case (1 fid ex)
  from "1.prems" show ?case
    by (subst (asm) result.simps) (auto split: if_splits future.splits dest: "1.IH")
qed

lemma fifo_all_running: "list_all running fs \<Longrightarrow> fifo fs"
  by (induction fs rule: fifo.induct) auto

lemma fifo_worker_return: "fifo ex \<Longrightarrow> fifo (worker_return ex)"
  by (induction ex rule: worker_return.induct) (auto simp: fifo_all_running)

lemma fifo_worker_sample: "fifo ex \<Longrightarrow> fifo (worker_sample s ex)"
  by (induction s ex rule: worker_sample.induct) auto

lemma result_fifo:
  "result fid ex = Some (r, ex') \<Longrightarrow> fifo ex \<Longrightarrow> fifo ex'"
proof (induction fid ex rule: result.induct)
  case (1 fid ex)
  from "1.prems" show ?case
    by (subst (asm) result.simps)
       (auto split: if_splits future.splits dest: "1.IH" fifo_worker_return)
qed

lemma fifo_last_finished:
  "fifo ex \<Longrightarrow> ex \<noteq> [] \<Longrightarrow> \<not> running (last ex) \<Longrightarrow> list_all (\<lambda>f. \<not> running f) ex"
  by (induction ex rule: fifo.induct) (auto simp: list_all_iff split: if_splits)


lemma finish_measuring:
  assumes "keep_measuring m" and "monitor_thread m = Some fid" and "fid < length (executor m)"
  shows "\<exists>ex. length ex = length (executor m) \<and> ex ! fid = Finished (max_usage_of (executor m ! fid)) \<and>
           (fifo (executor m) \<longrightarrow> fifo ex) \<and>
           finish now m =
             (Inr (max_usage_of (executor m ! fid)),
              m\<lparr> keep_measuring := False,
                  executor := ex,
                  monitor_thread := None,
                  time_stamps := time_stamps m @ [now],
                  mem_stats := mem_stats m @ [max_usage_of (executor m ! fid)] \<rparr>)"
proof -
  from result_returns [OF assms(3)] obtain ex
    where r: "result fid (executor m) = Some (max_usage_of (executor m ! fid), ex)" by blast
  have "length ex = length (executor m)" using r by (rule result_length)
  moreover have "ex ! fid = Finished (max_usage_of (executor m ! fid))" using r by (rule result_finished)
  moreover have "fifo (executor m) \<longrightarrow> fifo ex" using r by (blast intro: result_fifo)
  moreover have "finish now m =
             (Inr (max_usage_of (executor m ! fid)),
              m\<lparr> keep_measuring := False,
                  executor := ex,
                  monitor_thread := None,
                  time_stamps := time_stamps m @ [now],
                  mem_stats := mem_stats m @ [max_usage_of (executor m ! fid)] \<rparr>)"
    using assms(1,2) r by (simp add: finish_def)
  ultimately show ?thesis by blast
qed

subsection \<open>Folds, minima and the sampling loop\<close>

lemma foldl_max_Max: "foldl max a ss = Max (insert (a::int) (set ss))"
proof (induction ss arbitrary: a)
  case Nil
  then show ?case by simp
next
  case (Cons s ss)
  have "Max (insert (max a s) (set ss)) = Max (insert a (insert s (set ss)))"
    by (cases "set ss = {}") (simp_all add: max.assoc)
  with Cons show ?case by simp
qed

lemma foldl_min_Min: "foldl min a xs = Min (insert (a::'a::linorder) (set xs))"
proof (induction xs arbitrary: a)
  case Nil
  then show ?case by simp
next
  case (Cons x xs)
  have "Min (insert (min a x) (set xs)) = Min (insert a (insert x (set xs)))"
    by (cases "set xs = {}") (simp_all add: min.assoc)
  with Cons show ?case by simp
qed

lemma py_min_Min: "xs \<noteq> [] \<Longrightarrow> py_min xs = Inr (Min (set xs))"
  by (cases xs) (simp_all add: foldl_min_Min)

lemma worker_sample_last:
  "list_all (\<lambda>f. \<not> running f) ex \<Longrightarrow>
   worker_sample s (ex @ [Running a]) = ex @ [Running (max a s)]"
  by (induction ex rule: worker_return.induct) auto

lemma ticks_running_last:
  "keep_measuring m \<Longrightarrow> list_all (\<lambda>f. \<not> running f) ex \<Longrightarrow> executor m = ex @ [Running a] \<Longrightarrow>
   ticks ss m = m\<lparr>executor := ex @ [Running (foldl max a ss)]\<rparr>"
proof (induction ss arbitrary: m a)
  case Nil
  then show ?case by (simp add: ticks_def)
next
  case (Cons s ss)
  let ?m = "tick s m"
  have step: "?m = m\<lparr>executor := ex @ [Running (max a s)]\<rparr>"
    using Cons.prems by (simp add: tick_def worker_sample_last)
  have "ticks ss ?m = ?m\<lparr>executor := ex @ [Running (foldl max (max a s) ss)]\<rparr>"
    by (rule Cons.IH) (use Cons.prems step in simp_all)
  then show ?case by (simp add: ticks_def step)
qed

subsection \<open>The shape of the monitors a run produces\<close>

lemma fifo_append_running: "fifo ex \<Longrightarrow> fifo (ex @ [Running a])"
  by (induction ex rule: fifo.induct) auto

lemma worker_return_finished:
  "list_all (\<lambda>f. \<not> running f) ex \<Longrightarrow> worker_return ex = ex"
  by (induction ex rule: worker_return.induct) auto

lemma worker_sample_Nil [simp]: "worker_sample s ex = [] \<longleftrightarrow> ex = []"
  by (induction s ex rule: worker_sample.induct) auto

lemma worker_sample_last_running:
  "ex \<noteq> [] \<Longrightarrow> running (last ex) \<Longrightarrow> running (last (worker_sample s ex))"
  by (induction s ex rule: worker_sample.induct) (auto split: if_splits)

lemma wf_init: "wf_monitor (AsyncMemoryMonitor_init pwr)"
  by (simp add: wf_monitor_def AsyncMemoryMonitor_init_def)

lemma wf_set_interval: "wf_monitor m \<Longrightarrow> wf_monitor (set_interval pwr m)"
  by (simp add: wf_monitor_def set_interval_def)

lemma wf_start: "wf_monitor m \<Longrightarrow> wf_monitor (start m)"
  by (simp add: wf_monitor_def start_def fifo_append_running)

lemma wf_tick: "wf_monitor m \<Longrightarrow> wf_monitor (tick s m)"
  by (auto simp: wf_monitor_def tick_def fifo_worker_sample worker_sample_last_running
        worker_return_finished)

lemma finish_wf_measuring:
  assumes "wf_monitor m" and "keep_measuring m"
  shows "\<exists>ex. length ex = length (executor m) \<and> list_all (\<lambda>f. \<not> running f) ex \<and>
           finish now m =
             (Inr (max_usage_of (last (executor m))),
              m\<lparr> keep_measuring := False,
                  executor := ex,
                  monitor_thread := None,
                  time_stamps := time_stamps m @ [now],
                  mem_stats := mem_stats m @ [max_usage_of (last (executor m))] \<rparr>)"
proof -
  let ?fid = "length (executor m) - 1"
  from assms have ne: "executor m \<noteq> []" and mt: "monitor_thread m = Some ?fid"
    and ff: "fifo (executor m)"
    by (simp_all add: wf_monitor_def)
  from ne have lt: "?fid < length (executor m)" by simp
  from ne have la: "executor m ! ?fid = last (executor m)" by (simp add: last_conv_nth)
  from finish_measuring [OF assms(2) mt lt, of now] obtain ex where
    len: "length ex = length (executor m)" and
    fin: "ex ! ?fid = Finished (max_usage_of (executor m ! ?fid))" and
    ff': "fifo ex" and
    eq: "finish now m =
             (Inr (max_usage_of (executor m ! ?fid)),
              m\<lparr> keep_measuring := False,
                  executor := ex,
                  monitor_thread := None,
                  time_stamps := time_stamps m @ [now],
                  mem_stats := mem_stats m @ [max_usage_of (executor m ! ?fid)] \<rparr>)"
    using ff by blast
  from len ne have ne': "ex \<noteq> []" by auto
  with len fin have "\<not> running (last ex)" by (simp add: last_conv_nth)
  with ff' ne' have "list_all (\<lambda>f. \<not> running f) ex" by (rule fifo_last_finished)
  with len eq la show ?thesis by auto
qed

lemma wf_all_finished_fifo: "list_all (\<lambda>f. \<not> running f) ex \<Longrightarrow> fifo ex"
  by (induction ex rule: fifo.induct) auto

lemma wf_finish: "wf_monitor m \<Longrightarrow> wf_monitor (snd (finish now m))"
proof (cases "keep_measuring m")
  case True
  assume "wf_monitor m"
  from finish_wf_measuring [OF this True, of now] show ?thesis
    by (auto simp: wf_monitor_def wf_all_finished_fifo)
next
  case False
  assume "wf_monitor m"
  with False show ?thesis by (simp add: finish_def)
qed

lemma finish_wf_ok: "wf_monitor m \<Longrightarrow> \<exists>u. fst (finish now m) = Inr u"
proof (cases "keep_measuring m")
  case True
  assume "wf_monitor m"
  from finish_wf_measuring [OF this True, of now] show ?thesis by auto
next
  case False
  then show ?thesis by (simp add: finish_def)
qed

lemma wf_finish_pair: "wf_monitor m \<Longrightarrow> finish now m = (r, m') \<Longrightarrow> wf_monitor m'"
  using wf_finish [of m now] by simp

lemma wf_exec: "wf_monitor (async_mem_monitor h) \<Longrightarrow> wf_monitor (async_mem_monitor (exec c h))"
proof (cases c)
  case ShowMemStats
  assume "wf_monitor (async_mem_monitor h)"
  with ShowMemStats show ?thesis
    by (auto simp: show_mem_stats_def wf_monitor_def Let_def split: sum.splits)
qed (auto simp: wf_set_interval wf_start wf_tick wf_finish pre_fwd_exec_def post_fwd_exec_def
       pre_bwd_exec_def post_bwd_exec_def post_iter_def is_measuring_def
       split: prod.splits sum.splits dest: wf_finish_pair)

lemma wf_run: "wf_monitor (async_mem_monitor h) \<Longrightarrow> wf_monitor (async_mem_monitor (run cs h))"
  unfolding run_def by (induction cs arbitrary: h) (simp_all add: wf_exec)

lemma wf_reachable: "wf_monitor (async_mem_monitor (run cs MemTracerOpHook_init))"
  by (rule wf_run) (simp add: MemTracerOpHook_init_def wf_init)

lemma pre_fwd_exec_opens:
  assumes "wf_monitor (async_mem_monitor h)" and "training mdl"
  shows "fst (pre_fwd_exec mdl now h) = Inr () \<and>
         wf_monitor (async_mem_monitor (snd (pre_fwd_exec mdl now h))) \<and>
         keep_measuring (async_mem_monitor (snd (pre_fwd_exec mdl now h)))"
proof (cases "keep_measuring (async_mem_monitor h)")
  case True
  from finish_wf_measuring [OF assms(1) True, of now] obtain u m where
    f: "finish now (async_mem_monitor h) = (Inr u, m)" by blast
  from wf_finish_pair [OF assms(1) f] have "wf_monitor (start m)" by (rule wf_start)
  with True assms(2) f show ?thesis
    by (simp add: pre_fwd_exec_def is_measuring_def) (simp add: start_def)
next
  case False
  from assms(1) have "wf_monitor (start (async_mem_monitor h))" by (rule wf_start)
  with False assms(2) show ?thesis
    by (simp add: pre_fwd_exec_def is_measuring_def) (simp add: start_def)
qed

subsection \<open>Claims about \<^verbatim>\<open>finish\<close>\<close>

text \<open>
  C2. \<^verbatim>\<open>finish()\<close> on an idle monitor is a no-op: it returns 0 and leaves the whole
  monitor, and so both lists of the series, as it was. A monitor that was never
  started is idle, so the same holds for a fresh one.
\<close>

theorem finish_idle_noop:
  "(\<not> keep_measuring m \<longrightarrow> finish now m = (Inr 0, m)) \<and>
   finish now (AsyncMemoryMonitor_init pwr) = (Inr 0, AsyncMemoryMonitor_init pwr)"
  by (simp add: finish_def AsyncMemoryMonitor_init_def)

theorem finish_idle_noop_witness:
  "\<not> keep_measuring (set_interval 3 (AsyncMemoryMonitor_init 10)) \<and>
   finish 1 (set_interval 3 (AsyncMemoryMonitor_init 10)) =
     (Inr 0, set_interval 3 (AsyncMemoryMonitor_init 10)) \<and>
   time_stamps (snd (finish 1 (set_interval 3 (AsyncMemoryMonitor_init 10)))) = [] \<and>
   mem_stats (snd (finish 1 (set_interval 3 (AsyncMemoryMonitor_init 10)))) = []"
  using finish_idle_noop [of "set_interval 3 (AsyncMemoryMonitor_init 10)" 1]
  by (simp add: AsyncMemoryMonitor_init_def set_interval_def)

text \<open>
  C3. \<^verbatim>\<open>finish()\<close> on a measuring monitor whose handle is a task of the pool returns
  the \<^verbatim>\<open>max_usage\<close> of that task, leaves the monitor idle and appends exactly one
  element to each list: the time of the call and the value returned. After
  \<^verbatim>\<open>start()\<close> the handle is the task just submitted, so \<^verbatim>\<open>start()\<close> followed at
  once by \<^verbatim>\<open>finish()\<close> makes both lists longer by exactly one, from any monitor.
  Every measuring monitor that a run of calls produces from a new hook has such a
  handle: there \<^verbatim>\<open>finish()\<close> always ends normally with these effects.
\<close>

theorem finish_measuring_appends:
  "(keep_measuring m \<and> monitor_thread m = Some fid \<and> fid < length (executor m) \<longrightarrow>
      fst (finish now m) = Inr (max_usage_of (executor m ! fid)) \<and>
      \<not> keep_measuring (snd (finish now m)) \<and>
      time_stamps (snd (finish now m)) = time_stamps m @ [now] \<and>
      mem_stats (snd (finish now m)) = mem_stats m @ [max_usage_of (executor m ! fid)]) \<and>
   (keep_measuring (async_mem_monitor (run cs MemTracerOpHook_init)) \<longrightarrow>
      (\<exists>u. fst (finish now (async_mem_monitor (run cs MemTracerOpHook_init))) = Inr u \<and>
           \<not> keep_measuring (snd (finish now (async_mem_monitor (run cs MemTracerOpHook_init)))) \<and>
           time_stamps (snd (finish now (async_mem_monitor (run cs MemTracerOpHook_init)))) =
             time_stamps (async_mem_monitor (run cs MemTracerOpHook_init)) @ [now] \<and>
           mem_stats (snd (finish now (async_mem_monitor (run cs MemTracerOpHook_init)))) =
             mem_stats (async_mem_monitor (run cs MemTracerOpHook_init)) @ [u])) \<and>
   length (time_stamps (snd (finish now (start m)))) = Suc (length (time_stamps m)) \<and>
   length (mem_stats (snd (finish now (start m)))) = Suc (length (mem_stats m)) \<and>
   \<not> keep_measuring (snd (finish now (start m)))"
proof -
  have a: "keep_measuring (start m)" "monitor_thread (start m) = Some (length (executor m))"
    "length (executor m) < length (executor (start m))"
    by (simp_all add: start_def)
  from finish_measuring [OF a, of now]
  have s: "length (time_stamps (snd (finish now (start m)))) = Suc (length (time_stamps m)) \<and>
   length (mem_stats (snd (finish now (start m)))) = Suc (length (mem_stats m)) \<and>
   \<not> keep_measuring (snd (finish now (start m)))"
    by (auto simp: start_def)
  have g: "keep_measuring m \<and> monitor_thread m = Some fid \<and> fid < length (executor m) \<longrightarrow>
      fst (finish now m) = Inr (max_usage_of (executor m ! fid)) \<and>
      \<not> keep_measuring (snd (finish now m)) \<and>
      time_stamps (snd (finish now m)) = time_stamps m @ [now] \<and>
      mem_stats (snd (finish now m)) = mem_stats m @ [max_usage_of (executor m ! fid)]"
    using finish_measuring [of m fid now] by auto
  let ?r = "async_mem_monitor (run cs MemTracerOpHook_init)"
  have r: "\<exists>u. fst (finish now ?r) = Inr u \<and> \<not> keep_measuring (snd (finish now ?r)) \<and>
           time_stamps (snd (finish now ?r)) = time_stamps ?r @ [now] \<and>
           mem_stats (snd (finish now ?r)) = mem_stats ?r @ [u]"
    if "keep_measuring ?r"
    using finish_wf_measuring [OF wf_reachable that, of now] by auto
  from s g r show ?thesis by blast
qed

theorem finish_measuring_appends_witness:
  "keep_measuring (tick 30 (start (AsyncMemoryMonitor_init 10))) \<and>
   monitor_thread (tick 30 (start (AsyncMemoryMonitor_init 10))) = Some 0 \<and>
   0 < length (executor (tick 30 (start (AsyncMemoryMonitor_init 10)))) \<and>
   fst (finish 7 (tick 30 (start (AsyncMemoryMonitor_init 10)))) = Inr 30 \<and>
   \<not> keep_measuring (snd (finish 7 (tick 30 (start (AsyncMemoryMonitor_init 10))))) \<and>
   time_stamps (snd (finish 7 (tick 30 (start (AsyncMemoryMonitor_init 10))))) = [7] \<and>
   mem_stats (snd (finish 7 (tick 30 (start (AsyncMemoryMonitor_init 10))))) = [30]"
  using finish_measuring_appends [of "tick 30 (start (AsyncMemoryMonitor_init 10))" 0 7 "[]"]
  by (simp add: AsyncMemoryMonitor_init_def start_def tick_def)

lemma worker_sample_append:
  "\<exists>f \<in> set ex. running f \<Longrightarrow> worker_sample s (ex @ fs) = worker_sample s ex @ fs"
  by (induction s ex rule: worker_sample.induct) auto

lemma worker_sample_keeps_running:
  "\<exists>f \<in> set ex. running f \<Longrightarrow> \<exists>f \<in> set (worker_sample s ex). running f"
  by (induction s ex rule: worker_sample.induct) auto

lemma ticks_behind_running:
  "keep_measuring m \<Longrightarrow> executor m = ex @ [Running a] \<Longrightarrow> \<exists>f \<in> set ex. running f \<Longrightarrow>
   \<exists>ex'. length ex' = length ex \<and> ticks ss m = m\<lparr>executor := ex' @ [Running a]\<rparr>"
proof (induction ss arbitrary: m ex)
  case Nil
  then have "length ex = length ex \<and> ticks [] m = m\<lparr>executor := ex @ [Running a]\<rparr>"
    by (simp add: ticks_def)
  then show ?case by blast
next
  case (Cons s ss)
  let ?m = "tick s m" and ?ex = "worker_sample s ex"
  have step: "?m = m\<lparr>executor := ?ex @ [Running a]\<rparr>"
    using Cons.prems by (simp add: tick_def worker_sample_append)
  have "\<exists>ex'. length ex' = length ?ex \<and> ticks ss ?m = ?m\<lparr>executor := ex' @ [Running a]\<rparr>"
  proof (rule Cons.IH)
    show "keep_measuring ?m" using Cons.prems(1) by (simp add: step)
    show "executor ?m = ?ex @ [Running a]" by (simp add: step)
    show "\<exists>f \<in> set ?ex. running f" using Cons.prems(3) by (rule worker_sample_keeps_running)
  qed
  then obtain ex' where "length ex' = length ex" "ticks ss ?m = ?m\<lparr>executor := ex' @ [Running a]\<rparr>"
    by auto
  then show ?case by (auto simp: ticks_def step)
qed

lemma finish_after_ticks:
  "fst (finish now (ticks ss (start m))) =
     Inr (if list_all (\<lambda>f. \<not> running f) (executor m) then measure_usage ss else 0) \<and>
   mem_stats (snd (finish now (ticks ss (start m)))) =
     mem_stats m @ [if list_all (\<lambda>f. \<not> running f) (executor m) then measure_usage ss else 0]"
proof (cases "list_all (\<lambda>f. \<not> running f) (executor m)")
  case True
  let ?m = "(start m)\<lparr>executor := executor m @ [Running (foldl max 0 ss)]\<rparr>"
  have t: "ticks ss (start m) = ?m"
    by (rule ticks_running_last [OF _ True]) (simp_all add: start_def)
  have "keep_measuring ?m" "monitor_thread ?m = Some (length (executor m))"
    "length (executor m) < length (executor ?m)"
    by (simp_all add: start_def)
  from finish_measuring [OF this, of now] True show ?thesis
    unfolding t by (auto simp: measure_usage_def start_def)
next
  case False
  then have "\<exists>f \<in> set (executor m). running f" by (auto simp: list_all_iff)
  from ticks_behind_running [OF _ _ this, of "start m" 0 ss] obtain ex' where
    l: "length ex' = length (executor m)" and
    t: "ticks ss (start m) = (start m)\<lparr>executor := ex' @ [Running 0]\<rparr>"
    by (auto simp: start_def)
  let ?m = "(start m)\<lparr>executor := ex' @ [Running 0]\<rparr>"
  have "keep_measuring ?m" "monitor_thread ?m = Some (length ex')"
    "length ex' < length (executor ?m)"
    by (simp_all add: start_def l)
  from finish_measuring [OF this, of now] False show ?thesis
    unfolding t by (auto simp: start_def)
qed

text \<open>
  C5, as stated, fails for a session opened while an earlier task is still running.
  After \<^verbatim>\<open>start()\<close>, \<^verbatim>\<open>start()\<close> on a new hook the second task waits behind the
  first in the pool of one worker; the four ticks 10, 50, 30, 70 are all taken by the
  first task, and \<^verbatim>\<open>finish()\<close>, which reads the second, returns and records 0, not
  the largest value observed, 70.
\<close>

theorem finish_double_start_counterexample:
  "keep_measuring (ticks [10, 50, 30, 70] (async_mem_monitor (run [Start, Start] MemTracerOpHook_init))) \<and>
   fst (finish 9 (ticks [10, 50, 30, 70] (async_mem_monitor (run [Start, Start] MemTracerOpHook_init)))) = Inr 0 \<and>
   mem_stats (snd (finish 9 (ticks [10, 50, 30, 70]
     (async_mem_monitor (run [Start, Start] MemTracerOpHook_init))))) = [0] \<and>
   Max (set [10, 50, 30, 70 :: int]) = 70 \<and>
   fst (finish 9 (ticks [10, 50, 30, 70] (async_mem_monitor (run [Start, Start] MemTracerOpHook_init)))) \<noteq>
     Inr (Max (set [10, 50, 30, 70]))"
  by (simp add: run_def MemTracerOpHook_init_def AsyncMemoryMonitor_init_def start_def ticks_def
      tick_def finish_def result.simps)

text \<open>
  C5, amended. A task starts from \<^verbatim>\<open>max_usage = 0\<close> and each pass of its loop
  replaces it by the larger of it and the sample, so \<^verbatim>\<open>finish()\<close> returns and
  records the largest of 0 and the samples taken by the task of the session itself.
  After \<^verbatim>\<open>start()\<close> on any monitor and the ticks \<open>ss\<close>: when no earlier task was
  still running, the new task takes every sample and \<^verbatim>\<open>finish()\<close> returns
  \<open>measure_usage ss\<close>, the largest of 0 and the samples, which is the largest sample as
  soon as there is one and none is negative; when an earlier task was still running,
  the new task takes none and \<^verbatim>\<open>finish()\<close> returns 0. The first case is that of
  every idle monitor a run of calls produces from a new hook, the second that of every
  measuring one. On a new monitor the four ticks 10, 50, 30, 70 make \<^verbatim>\<open>finish()\<close>
  return 70.
\<close>

theorem finish_returns_task_max:
  "last (executor (start m)) = Running 0 \<and>
   worker_sample s (Running a # fs) = Running (max a s) # fs \<and>
   fst (finish now (ticks ss (start m))) =
     Inr (if list_all (\<lambda>f. \<not> running f) (executor m) then measure_usage ss else 0) \<and>
   mem_stats (snd (finish now (ticks ss (start m)))) =
     mem_stats m @ [if list_all (\<lambda>f. \<not> running f) (executor m) then measure_usage ss else 0] \<and>
   (\<not> keep_measuring (async_mem_monitor (run cs MemTracerOpHook_init)) \<longrightarrow>
      fst (finish now (ticks ss (start (async_mem_monitor (run cs MemTracerOpHook_init))))) =
        Inr (measure_usage ss)) \<and>
   (keep_measuring (async_mem_monitor (run cs' MemTracerOpHook_init)) \<longrightarrow>
      fst (finish now (ticks ss (start (async_mem_monitor (run cs' MemTracerOpHook_init))))) = Inr 0) \<and>
   measure_usage ss = Max (insert 0 (set ss)) \<and>
   (ss \<noteq> [] \<and> (\<forall>s \<in> set ss. 0 \<le> s) \<longrightarrow> measure_usage ss = Max (set ss)) \<and>
   fst (finish now (ticks [10, 50, 30, 70] (start (AsyncMemoryMonitor_init pwr)))) = Inr 70"
proof -
  have seed: "last (executor (start m)) = Running 0" by (simp add: start_def)
  have body: "worker_sample s (Running a # fs) = Running (max a s) # fs" by simp
  note gen = finish_after_ticks [of now ss m]
  have idle: "fst (finish now (ticks ss (start (async_mem_monitor (run cs MemTracerOpHook_init))))) =
        Inr (measure_usage ss)"
    if "\<not> keep_measuring (async_mem_monitor (run cs MemTracerOpHook_init))"
  proof -
    from wf_reachable [of cs] that
    have "list_all (\<lambda>f. \<not> running f) (executor (async_mem_monitor (run cs MemTracerOpHook_init)))"
      by (simp add: wf_monitor_def)
    with finish_after_ticks [of now ss "async_mem_monitor (run cs MemTracerOpHook_init)"]
    show ?thesis by simp
  qed
  have meas: "fst (finish now (ticks ss (start (async_mem_monitor (run cs' MemTracerOpHook_init))))) = Inr 0"
    if "keep_measuring (async_mem_monitor (run cs' MemTracerOpHook_init))"
  proof -
    let ?ex = "executor (async_mem_monitor (run cs' MemTracerOpHook_init))"
    from wf_reachable [of cs'] that have "?ex \<noteq> []" "running (last ?ex)"
      by (simp_all add: wf_monitor_def)
    then have "\<not> list_all (\<lambda>f. \<not> running f) ?ex"
      by (auto simp: list_all_iff)
    with finish_after_ticks [of now ss "async_mem_monitor (run cs' MemTracerOpHook_init)"]
    show ?thesis by simp
  qed
  have mx: "measure_usage ss = Max (insert 0 (set ss))"
    by (simp add: measure_usage_def foldl_max_Max)
  have nonneg: "measure_usage ss = Max (set ss)" if "ss \<noteq> []" "\<forall>s \<in> set ss. 0 \<le> s"
  proof -
    from that have "0 \<le> Max (set ss)"
      by (metis List.finite_set Max_ge_iff last_in_set set_empty)
    with that(1) show ?thesis unfolding mx by (simp add: max_def)
  qed
  from finish_after_ticks [of now "[10, 50, 30, 70]" "AsyncMemoryMonitor_init pwr"]
  have ex: "fst (finish now (ticks [10, 50, 30, 70] (start (AsyncMemoryMonitor_init pwr)))) = Inr 70"
    by (simp add: measure_usage_def AsyncMemoryMonitor_init_def)
  from seed body gen idle meas mx nonneg ex show ?thesis by blast
qed

theorem finish_returns_task_max_witness:
  "\<not> keep_measuring (async_mem_monitor (run [Start, Tick 5, Finish 2] MemTracerOpHook_init)) \<and>
   keep_measuring (async_mem_monitor (run [Start, Tick 6] MemTracerOpHook_init)) \<and>
   [3, 9, 4] \<noteq> ([] :: int list) \<and> list_all (\<lambda>s. 0 \<le> s) [3, 9, 4 :: int] \<and>
   list_all (\<lambda>f. \<not> running f) (executor (async_mem_monitor (run [Start, Tick 5, Finish 2] MemTracerOpHook_init))) \<and>
   fst (finish 8 (ticks [3, 9, 4] (start (async_mem_monitor (run [Start, Tick 5, Finish 2] MemTracerOpHook_init))))) = Inr 9 \<and>
   mem_stats (snd (finish 8 (ticks [3, 9, 4] (start (async_mem_monitor (run [Start, Tick 5, Finish 2] MemTracerOpHook_init)))))) = [5, 9] \<and>
   fst (finish 8 (ticks [3, 9, 4] (start (async_mem_monitor (run [Start, Tick 6] MemTracerOpHook_init))))) = Inr 0 \<and>
   measure_usage [3, 9, 4] = 9 \<and> Max (set [3, 9, 4 :: int]) = 9"
proof -
  have r: "async_mem_monitor (run [Start, Tick 5, Finish 2] MemTracerOpHook_init) =
     (AsyncMemoryMonitor_init 10)\<lparr>executor := [Finished 5], time_stamps := [2], mem_stats := [5]\<rparr>"
    by (simp add: run_def MemTracerOpHook_init_def AsyncMemoryMonitor_init_def start_def tick_def
        finish_def result.simps)
  have r': "async_mem_monitor (run [Start, Tick 6] MemTracerOpHook_init) =
     (AsyncMemoryMonitor_init 10)\<lparr>keep_measuring := True, executor := [Running 6], monitor_thread := Some 0\<rparr>"
    by (simp add: run_def MemTracerOpHook_init_def AsyncMemoryMonitor_init_def start_def tick_def)
  have i: "\<not> keep_measuring (async_mem_monitor (run [Start, Tick 5, Finish 2] MemTracerOpHook_init))"
    and f: "list_all (\<lambda>f. \<not> running f)
      (executor (async_mem_monitor (run [Start, Tick 5, Finish 2] MemTracerOpHook_init)))"
    and ms: "mem_stats (async_mem_monitor (run [Start, Tick 5, Finish 2] MemTracerOpHook_init)) = [5]"
    by (simp_all add: r AsyncMemoryMonitor_init_def)
  have k: "keep_measuring (async_mem_monitor (run [Start, Tick 6] MemTracerOpHook_init))"
    by (simp add: r')
  have v: "measure_usage [3, 9, 4] = 9" "Max (set [3, 9, 4 :: int]) = 9"
    by (simp_all add: measure_usage_def)
  from finish_returns_task_max [of "async_mem_monitor (run [Start, Tick 5, Finish 2] MemTracerOpHook_init)"
      0 0 "[]" 8 "[3, 9, 4]" "[Start, Tick 5, Finish 2]" "[Start, Tick 6]" 10] i f k ms v
  show ?thesis by simp
qed

subsection \<open>Claims about \<^verbatim>\<open>show_mem_stats\<close>\<close>

lemma show_mem_stats_nonempty:
  assumes "time_stamps (async_mem_monitor h) \<noteq> []" and "mem_stats (async_mem_monitor h) \<noteq> []"
  shows "show_mem_stats h =
     (Inr (map (\<lambda>t. t - Min (set (time_stamps (async_mem_monitor h)))) (time_stamps (async_mem_monitor h)),
           map (\<lambda>u. u - Min (set (mem_stats (async_mem_monitor h)))) (mem_stats (async_mem_monitor h))),
      h\<lparr>async_mem_monitor := (async_mem_monitor h)
         \<lparr>time_stamps :=
            map (\<lambda>t. t - Min (set (time_stamps (async_mem_monitor h)))) (time_stamps (async_mem_monitor h)),
          mem_stats :=
            map (\<lambda>u. u - Min (set (mem_stats (async_mem_monitor h)))) (mem_stats (async_mem_monitor h))\<rparr>\<rparr>)"
  using assms by (simp add: show_mem_stats_def py_min_Min)

lemma Min_shifted:
  fixes xs :: "'a::linordered_ab_group_add list"
  assumes "xs \<noteq> []"
  shows "Min (set (map (\<lambda>x. x - Min (set xs)) xs)) = 0"
proof (rule Min_eqI)
  show "finite (set (map (\<lambda>x. x - Min (set xs)) xs))" by simp
  show "0 \<le> y" if "y \<in> set (map (\<lambda>x. x - Min (set xs)) xs)" for y
    using that by auto
  have "Min (set xs) \<in> set xs" using assms by simp
  then have "Min (set xs) - Min (set xs) \<in> set (map (\<lambda>x. x - Min (set xs)) xs)"
    by (simp only: set_map) (rule imageI)
  then show "0 \<in> set (map (\<lambda>x. x - Min (set xs)) xs)" by simp
qed

text \<open>
  C6. On a series with at least one entry in each list, \<^verbatim>\<open>show_mem_stats\<close> replaces
  every time stamp \<open>t\<close> by \<open>t - t0\<close> and every usage \<open>u\<close> by \<open>u - u0\<close>, where
  \<open>t0\<close> is the least time stamp and \<open>u0\<close> the least usage, changes nothing else, and
  prints the two new lists. The series 5, 8, 10 with 200, 150, 300 becomes 0, 3, 5 with
  50, 0, 150.
\<close>

theorem show_mem_stats_normalizes:
  "(time_stamps (async_mem_monitor h) \<noteq> [] \<and> mem_stats (async_mem_monitor h) \<noteq> [] \<longrightarrow>
      fst (show_mem_stats h) =
        Inr (time_stamps (async_mem_monitor (snd (show_mem_stats h))),
             mem_stats (async_mem_monitor (snd (show_mem_stats h)))) \<and>
      snd (show_mem_stats h) =
        h\<lparr>async_mem_monitor := (async_mem_monitor h)
           \<lparr>time_stamps :=
              map (\<lambda>t. t - Min (set (time_stamps (async_mem_monitor h))))
                (time_stamps (async_mem_monitor h)),
            mem_stats :=
              map (\<lambda>u. u - Min (set (mem_stats (async_mem_monitor h))))
                (mem_stats (async_mem_monitor h))\<rparr>\<rparr>) \<and>
   snd (show_mem_stats
          (h\<lparr>async_mem_monitor := (async_mem_monitor h)
             \<lparr>time_stamps := [5, 8, 10], mem_stats := [200, 150, 300]\<rparr>\<rparr>)) =
     h\<lparr>async_mem_monitor := (async_mem_monitor h)
        \<lparr>time_stamps := [0, 3, 5], mem_stats := [50, 0, 150]\<rparr>\<rparr>"
proof -
  have "snd (show_mem_stats
          (h\<lparr>async_mem_monitor := (async_mem_monitor h)
             \<lparr>time_stamps := [5, 8, 10], mem_stats := [200, 150, 300]\<rparr>\<rparr>)) =
     h\<lparr>async_mem_monitor := (async_mem_monitor h)
        \<lparr>time_stamps := [0, 3, 5], mem_stats := [50, 0, 150]\<rparr>\<rparr>"
    by (simp add: show_mem_stats_def)
  then show ?thesis
    using show_mem_stats_nonempty [of h] by simp
qed

theorem show_mem_stats_normalizes_witness:
  "time_stamps (async_mem_monitor (run [Start, Tick 4, Finish 2, Start, Finish 6] MemTracerOpHook_init)) \<noteq> [] \<and>
   mem_stats (async_mem_monitor (run [Start, Tick 4, Finish 2, Start, Finish 6] MemTracerOpHook_init)) \<noteq> [] \<and>
   time_stamps (async_mem_monitor (run [Start, Tick 4, Finish 2, Start, Finish 6] MemTracerOpHook_init)) = [2, 6] \<and>
   mem_stats (async_mem_monitor (run [Start, Tick 4, Finish 2, Start, Finish 6] MemTracerOpHook_init)) = [4, 0] \<and>
   fst (show_mem_stats (run [Start, Tick 4, Finish 2, Start, Finish 6] MemTracerOpHook_init)) =
     Inr ([0, 4], [4, 0]) \<and>
   time_stamps (async_mem_monitor (snd (show_mem_stats (run [Start, Tick 4, Finish 2, Start, Finish 6] MemTracerOpHook_init)))) = [0, 4] \<and>
   mem_stats (async_mem_monitor (snd (show_mem_stats (run [Start, Tick 4, Finish 2, Start, Finish 6] MemTracerOpHook_init)))) = [4, 0]"
proof -
  have r: "async_mem_monitor (run [Start, Tick 4, Finish 2, Start, Finish 6] MemTracerOpHook_init) =
     (AsyncMemoryMonitor_init 10)\<lparr>executor := [Finished 4, Finished 0], time_stamps := [2, 6], mem_stats := [4, 0]\<rparr>"
    by (simp add: run_def MemTracerOpHook_init_def AsyncMemoryMonitor_init_def start_def tick_def
        finish_def result.simps)
  show ?thesis
    using show_mem_stats_normalizes [of "run [Start, Tick 4, Finish 2, Start, Finish 6] MemTracerOpHook_init"]
    by (simp add: r)
qed

text \<open>
  C7. On a series with no entry, \<^verbatim>\<open>show_mem_stats\<close> raises ValueError, the error of
  \<^verbatim>\<open>min\<close> on an empty list, and leaves the hook as it was: the call neither ends
  normally nor takes 0 as the minimum.
\<close>

theorem show_mem_stats_empty_error:
  "time_stamps (async_mem_monitor h) = [] \<Longrightarrow> show_mem_stats h = (Inl ValueError, h)"
  by (simp add: show_mem_stats_def)

theorem show_mem_stats_empty_error_witness:
  "time_stamps (async_mem_monitor MemTracerOpHook_init) = [] \<and>
   mem_stats (async_mem_monitor MemTracerOpHook_init) = [] \<and>
   show_mem_stats MemTracerOpHook_init = (Inl ValueError, MemTracerOpHook_init)"
  using show_mem_stats_empty_error [of MemTracerOpHook_init]
  by (simp add: MemTracerOpHook_init_def AsyncMemoryMonitor_init_def)

text \<open>
  C10. \<^verbatim>\<open>show_mem_stats\<close> is idempotent on a series with at least one entry in each
  list: after one call the least time stamp and the least usage are both 0, and a
  second call returns the same lists and leaves the hook unchanged.
\<close>

theorem show_mem_stats_idempotent:
  "time_stamps (async_mem_monitor h) \<noteq> [] \<and> mem_stats (async_mem_monitor h) \<noteq> [] \<longrightarrow>
     Min (set (time_stamps (async_mem_monitor (snd (show_mem_stats h))))) = 0 \<and>
     Min (set (mem_stats (async_mem_monitor (snd (show_mem_stats h))))) = 0 \<and>
     snd (show_mem_stats (snd (show_mem_stats h))) = snd (show_mem_stats h) \<and>
     fst (show_mem_stats (snd (show_mem_stats h))) = fst (show_mem_stats h)"
proof
  assume ne: "time_stamps (async_mem_monitor h) \<noteq> [] \<and> mem_stats (async_mem_monitor h) \<noteq> []"
  let ?h = "snd (show_mem_stats h)"
  let ?ts = "time_stamps (async_mem_monitor h)" and ?ms = "mem_stats (async_mem_monitor h)"
  have ts: "time_stamps (async_mem_monitor ?h) = map (\<lambda>t. t - Min (set ?ts)) ?ts"
    and ms: "mem_stats (async_mem_monitor ?h) = map (\<lambda>u. u - Min (set ?ms)) ?ms"
    and out: "fst (show_mem_stats h) = Inr (time_stamps (async_mem_monitor ?h), mem_stats (async_mem_monitor ?h))"
    using ne by (simp_all add: show_mem_stats_nonempty)
  have t0: "Min (set (time_stamps (async_mem_monitor ?h))) = 0"
    unfolding ts using ne by (intro Min_shifted) simp
  have m0: "Min (set (mem_stats (async_mem_monitor ?h))) = 0"
    unfolding ms using ne by (intro Min_shifted) simp
  have ne': "time_stamps (async_mem_monitor ?h) \<noteq> []" "mem_stats (async_mem_monitor ?h) \<noteq> []"
    using ne by (simp_all add: ts ms)
  have "show_mem_stats ?h = (fst (show_mem_stats h), ?h)"
    by (subst show_mem_stats_nonempty [OF ne']) (simp add: t0 m0 out)
  with t0 m0 show "Min (set (time_stamps (async_mem_monitor ?h))) = 0 \<and>
     Min (set (mem_stats (async_mem_monitor ?h))) = 0 \<and>
     snd (show_mem_stats ?h) = ?h \<and> fst (show_mem_stats ?h) = fst (show_mem_stats h)"
    by simp
qed

theorem show_mem_stats_idempotent_witness:
  "time_stamps (async_mem_monitor (run [Start, Tick 4, Finish 2, Start, Finish 6] MemTracerOpHook_init)) \<noteq> [] \<and>
   mem_stats (async_mem_monitor (run [Start, Tick 4, Finish 2, Start, Finish 6] MemTracerOpHook_init)) \<noteq> [] \<and>
   Min (set (time_stamps (async_mem_monitor
     (snd (show_mem_stats (run [Start, Tick 4, Finish 2, Start, Finish 6] MemTracerOpHook_init)))))) = 0 \<and>
   Min (set (mem_stats (async_mem_monitor
     (snd (show_mem_stats (run [Start, Tick 4, Finish 2, Start, Finish 6] MemTracerOpHook_init)))))) = 0 \<and>
   snd (show_mem_stats (snd (show_mem_stats (run [Start, Tick 4, Finish 2, Start, Finish 6] MemTracerOpHook_init)))) =
     snd (show_mem_stats (run [Start, Tick 4, Finish 2, Start, Finish 6] MemTracerOpHook_init))"
proof -
  have r: "async_mem_monitor (run [Start, Tick 4, Finish 2, Start, Finish 6] MemTracerOpHook_init) =
     (AsyncMemoryMonitor_init 10)\<lparr>executor := [Finished 4, Finished 0], time_stamps := [2, 6], mem_stats := [4, 0]\<rparr>"
    by (simp add: run_def MemTracerOpHook_init_def AsyncMemoryMonitor_init_def start_def tick_def
        finish_def result.simps)
  show ?thesis
    using show_mem_stats_idempotent [of "run [Start, Tick 4, Finish 2, Start, Finish 6] MemTracerOpHook_init"]
    by (simp add: r)
qed

subsection \<open>Claims about the sequencing of sessions\<close>

text \<open>
  C1, as stated, fails: \<^verbatim>\<open>start()\<close> on a measuring monitor records nothing. On a
  new monitor, after two calls of \<^verbatim>\<open>start()\<close> both lists are still empty, where
  \<^verbatim>\<open>finish()\<close> followed by \<^verbatim>\<open>start()\<close> would have recorded one entry.
\<close>

theorem start_while_measuring_counterexample:
  "keep_measuring (start (AsyncMemoryMonitor_init 10)) \<and>
   time_stamps (start (start (AsyncMemoryMonitor_init 10))) = [] \<and>
   mem_stats (start (start (AsyncMemoryMonitor_init 10))) = [] \<and>
   length (time_stamps (start (start (AsyncMemoryMonitor_init 10)))) \<noteq>
     Suc (length (time_stamps (start (AsyncMemoryMonitor_init 10)))) \<and>
   time_stamps (start (snd (finish 1 (start (AsyncMemoryMonitor_init 10))))) = [1]"
  by (simp add: AsyncMemoryMonitor_init_def start_def finish_def result.simps)

text \<open>
  C1, amended. \<^verbatim>\<open>start()\<close> never touches the series: it sets the flag and submits a
  task. The stale session is closed by the handlers \<^verbatim>\<open>pre_fwd_exec\<close> and
  \<^verbatim>\<open>pre_bwd_exec\<close>, which have the same body: called with a training module on a
  measuring monitor, the handler is \<^verbatim>\<open>finish()\<close> followed by \<^verbatim>\<open>start()\<close>. It
  ends normally, records exactly one entry, the time of the call and the
  \<^verbatim>\<open>max_usage\<close> of the stale session, and leaves a new session open whose task
  starts from 0. So the second of two such handler calls in a row records exactly one
  entry and leaves the monitor measuring.
\<close>

theorem pre_exec_closes_stale_session:
  "time_stamps (start m) = time_stamps m \<and> mem_stats (start m) = mem_stats m \<and>
   keep_measuring (start m) \<and>
   pre_bwd_exec mdl now h = pre_fwd_exec mdl now h \<and>
   (wf_monitor (async_mem_monitor h) \<and> keep_measuring (async_mem_monitor h) \<and> training mdl \<longrightarrow>
      pre_fwd_exec mdl now h =
        (Inr (), h\<lparr>async_mem_monitor := start (snd (finish now (async_mem_monitor h)))\<rparr>) \<and>
      time_stamps (async_mem_monitor (snd (pre_fwd_exec mdl now h))) =
        time_stamps (async_mem_monitor h) @ [now] \<and>
      mem_stats (async_mem_monitor (snd (pre_fwd_exec mdl now h))) =
        mem_stats (async_mem_monitor h) @ [max_usage_of (last (executor (async_mem_monitor h)))] \<and>
      keep_measuring (async_mem_monitor (snd (pre_fwd_exec mdl now h))) \<and>
      last (executor (async_mem_monitor (snd (pre_fwd_exec mdl now h)))) = Running 0 \<and>
      wf_monitor (async_mem_monitor (snd (pre_fwd_exec mdl now h)))) \<and>
   (wf_monitor (async_mem_monitor h) \<and> training mdl \<longrightarrow>
      fst (pre_fwd_exec mdl now' (snd (pre_fwd_exec mdl now h))) = Inr () \<and>
      length (time_stamps (async_mem_monitor (snd (pre_fwd_exec mdl now' (snd (pre_fwd_exec mdl now h)))))) =
        Suc (length (time_stamps (async_mem_monitor (snd (pre_fwd_exec mdl now h))))) \<and>
      length (mem_stats (async_mem_monitor (snd (pre_fwd_exec mdl now' (snd (pre_fwd_exec mdl now h)))))) =
        Suc (length (mem_stats (async_mem_monitor (snd (pre_fwd_exec mdl now h))))) \<and>
      keep_measuring (async_mem_monitor (snd (pre_fwd_exec mdl now' (snd (pre_fwd_exec mdl now h))))))"
proof -
  have s: "time_stamps (start m) = time_stamps m \<and> mem_stats (start m) = mem_stats m \<and>
      keep_measuring (start m)"
    by (simp add: start_def)
  have b: "pre_bwd_exec mdl now h = pre_fwd_exec mdl now h"
    by (simp add: pre_bwd_exec_def pre_fwd_exec_def)
  have p: "pre_fwd_exec mdl now h =
        (Inr (), h\<lparr>async_mem_monitor := start (snd (finish now (async_mem_monitor h)))\<rparr>) \<and>
      time_stamps (async_mem_monitor (snd (pre_fwd_exec mdl now h))) =
        time_stamps (async_mem_monitor h) @ [now] \<and>
      mem_stats (async_mem_monitor (snd (pre_fwd_exec mdl now h))) =
        mem_stats (async_mem_monitor h) @ [max_usage_of (last (executor (async_mem_monitor h)))] \<and>
      keep_measuring (async_mem_monitor (snd (pre_fwd_exec mdl now h))) \<and>
      last (executor (async_mem_monitor (snd (pre_fwd_exec mdl now h)))) = Running 0 \<and>
      wf_monitor (async_mem_monitor (snd (pre_fwd_exec mdl now h)))"
    if w: "wf_monitor (async_mem_monitor h)" and k: "keep_measuring (async_mem_monitor h)"
      and t: "training mdl" for h now
  proof -
    from finish_wf_measuring [OF w k, of now] obtain ex where
      f: "finish now (async_mem_monitor h) =
             (Inr (max_usage_of (last (executor (async_mem_monitor h)))),
              (async_mem_monitor h)\<lparr> keep_measuring := False,
                  executor := ex,
                  monitor_thread := None,
                  time_stamps := time_stamps (async_mem_monitor h) @ [now],
                  mem_stats := mem_stats (async_mem_monitor h) @
                    [max_usage_of (last (executor (async_mem_monitor h)))] \<rparr>)"
      by blast
    have e: "pre_fwd_exec mdl now h =
        (Inr (), h\<lparr>async_mem_monitor := start (snd (finish now (async_mem_monitor h)))\<rparr>)"
      using k t by (simp add: pre_fwd_exec_def is_measuring_def f)
    have "wf_monitor (start (snd (finish now (async_mem_monitor h))))"
      using w by (intro wf_start wf_finish)
    then show ?thesis
      unfolding e by (simp add: f start_def)
  qed
  have q: "fst (pre_fwd_exec mdl now' (snd (pre_fwd_exec mdl now h))) = Inr () \<and>
      length (time_stamps (async_mem_monitor (snd (pre_fwd_exec mdl now' (snd (pre_fwd_exec mdl now h)))))) =
        Suc (length (time_stamps (async_mem_monitor (snd (pre_fwd_exec mdl now h))))) \<and>
      length (mem_stats (async_mem_monitor (snd (pre_fwd_exec mdl now' (snd (pre_fwd_exec mdl now h)))))) =
        Suc (length (mem_stats (async_mem_monitor (snd (pre_fwd_exec mdl now h))))) \<and>
      keep_measuring (async_mem_monitor (snd (pre_fwd_exec mdl now' (snd (pre_fwd_exec mdl now h)))))"
    if w: "wf_monitor (async_mem_monitor h)" and t: "training mdl"
  proof -
    let ?h = "snd (pre_fwd_exec mdl now h)"
    from pre_fwd_exec_opens [OF w t, of now]
    have w': "wf_monitor (async_mem_monitor ?h)" and k': "keep_measuring (async_mem_monitor ?h)"
      by simp_all
    from p [OF w' k' t, of now']
    have e: "pre_fwd_exec mdl now' ?h =
        (Inr (), ?h\<lparr>async_mem_monitor := start (snd (finish now' (async_mem_monitor ?h)))\<rparr>)"
      and l: "time_stamps (async_mem_monitor (snd (pre_fwd_exec mdl now' ?h))) =
        time_stamps (async_mem_monitor ?h) @ [now']"
        "mem_stats (async_mem_monitor (snd (pre_fwd_exec mdl now' ?h))) =
        mem_stats (async_mem_monitor ?h) @ [max_usage_of (last (executor (async_mem_monitor ?h)))]"
        "keep_measuring (async_mem_monitor (snd (pre_fwd_exec mdl now' ?h)))"
      by blast+
    from e have "fst (pre_fwd_exec mdl now' ?h) = Inr ()"
      by (rule arg_cong [where f = fst, THEN trans]) simp
    moreover from l(1) have "length (time_stamps (async_mem_monitor (snd (pre_fwd_exec mdl now' ?h)))) =
        Suc (length (time_stamps (async_mem_monitor ?h)))"
      by (rule arg_cong [where f = length, THEN trans]) simp
    moreover from l(2) have "length (mem_stats (async_mem_monitor (snd (pre_fwd_exec mdl now' ?h)))) =
        Suc (length (mem_stats (async_mem_monitor ?h)))"
      by (rule arg_cong [where f = length, THEN trans]) simp
    ultimately show ?thesis using l(3) by blast
  qed
  from s b p [of h now] q show ?thesis by blast
qed

theorem pre_exec_closes_stale_session_witness:
  "wf_monitor (async_mem_monitor (run [PreFwdExec \<lparr>training = True\<rparr> 1, Tick 40] MemTracerOpHook_init)) \<and>
   keep_measuring (async_mem_monitor (run [PreFwdExec \<lparr>training = True\<rparr> 1, Tick 40] MemTracerOpHook_init)) \<and>
   training \<lparr>training = True\<rparr> \<and>
   time_stamps (async_mem_monitor (run [PreFwdExec \<lparr>training = True\<rparr> 1, Tick 40] MemTracerOpHook_init)) = [] \<and>
   fst (pre_fwd_exec \<lparr>training = True\<rparr> 3 (run [PreFwdExec \<lparr>training = True\<rparr> 1, Tick 40] MemTracerOpHook_init)) = Inr () \<and>
   time_stamps (async_mem_monitor (snd (pre_fwd_exec \<lparr>training = True\<rparr> 3
     (run [PreFwdExec \<lparr>training = True\<rparr> 1, Tick 40] MemTracerOpHook_init)))) = [3] \<and>
   mem_stats (async_mem_monitor (snd (pre_fwd_exec \<lparr>training = True\<rparr> 3
     (run [PreFwdExec \<lparr>training = True\<rparr> 1, Tick 40] MemTracerOpHook_init)))) = [40] \<and>
   keep_measuring (async_mem_monitor (snd (pre_fwd_exec \<lparr>training = True\<rparr> 3
     (run [PreFwdExec \<lparr>training = True\<rparr> 1, Tick 40] MemTracerOpHook_init))))"
proof -
  let ?h = "run [PreFwdExec \<lparr>training = True\<rparr> 1, Tick 40] MemTracerOpHook_init"
  have r: "async_mem_monitor ?h =
     (AsyncMemoryMonitor_init 10)\<lparr>keep_measuring := True, executor := [Running 40],
        monitor_thread := Some 0\<rparr>"
    by (simp add: run_def MemTracerOpHook_init_def AsyncMemoryMonitor_init_def start_def tick_def
        pre_fwd_exec_def is_measuring_def)
  have w: "wf_monitor (async_mem_monitor ?h)"
    and k: "keep_measuring (async_mem_monitor ?h)"
    and e: "time_stamps (async_mem_monitor ?h) = []" "mem_stats (async_mem_monitor ?h) = []"
      "last (executor (async_mem_monitor ?h)) = Running 40"
    by (simp_all add: r wf_monitor_def AsyncMemoryMonitor_init_def)
  have t: "training \<lparr>training = True\<rparr>" by simp
  from pre_exec_closes_stale_session [of "AsyncMemoryMonitor_init 10" "\<lparr>training = True\<rparr>" 3 ?h 4]
  have "wf_monitor (async_mem_monitor ?h) \<and> keep_measuring (async_mem_monitor ?h) \<and>
      training \<lparr>training = True\<rparr> \<longrightarrow>
      pre_fwd_exec \<lparr>training = True\<rparr> 3 ?h =
        (Inr (), ?h\<lparr>async_mem_monitor := start (snd (finish 3 (async_mem_monitor ?h)))\<rparr>) \<and>
      time_stamps (async_mem_monitor (snd (pre_fwd_exec \<lparr>training = True\<rparr> 3 ?h))) =
        time_stamps (async_mem_monitor ?h) @ [3] \<and>
      mem_stats (async_mem_monitor (snd (pre_fwd_exec \<lparr>training = True\<rparr> 3 ?h))) =
        mem_stats (async_mem_monitor ?h) @ [max_usage_of (last (executor (async_mem_monitor ?h)))] \<and>
      keep_measuring (async_mem_monitor (snd (pre_fwd_exec \<lparr>training = True\<rparr> 3 ?h))) \<and>
      last (executor (async_mem_monitor (snd (pre_fwd_exec \<lparr>training = True\<rparr> 3 ?h)))) = Running 0 \<and>
      wf_monitor (async_mem_monitor (snd (pre_fwd_exec \<lparr>training = True\<rparr> 3 ?h)))"
    by blast
  with w k t have c:
    "time_stamps (async_mem_monitor (snd (pre_fwd_exec \<lparr>training = True\<rparr> 3 ?h))) =
        time_stamps (async_mem_monitor ?h) @ [3]"
    "mem_stats (async_mem_monitor (snd (pre_fwd_exec \<lparr>training = True\<rparr> 3 ?h))) =
        mem_stats (async_mem_monitor ?h) @ [max_usage_of (last (executor (async_mem_monitor ?h)))]"
    "keep_measuring (async_mem_monitor (snd (pre_fwd_exec \<lparr>training = True\<rparr> 3 ?h)))"
    and q: "pre_fwd_exec \<lparr>training = True\<rparr> 3 ?h =
        (Inr (), ?h\<lparr>async_mem_monitor := start (snd (finish 3 (async_mem_monitor ?h)))\<rparr>)"
    by blast+
  from q have c0: "fst (pre_fwd_exec \<lparr>training = True\<rparr> 3 ?h) = Inr ()"
    by (rule arg_cong [where f = fst, THEN trans]) simp
  from w k t e(1) c0 c(1) [unfolded e] c(2) [unfolded e] c(3) show ?thesis by simp
qed

text \<open>
  C9, as stated, fails for the end-of-iteration handler: \<^verbatim>\<open>post_iter\<close> takes no
  module and tests no training flag. On a monitor that is measuring it calls
  \<^verbatim>\<open>finish()\<close> whatever the state of the enclosing context: an entry is recorded
  and the monitor becomes idle.
\<close>

theorem post_iter_counterexample:
  "keep_measuring (async_mem_monitor (snd (pre_fwd_exec \<lparr>training = True\<rparr> 1 MemTracerOpHook_init))) \<and>
   time_stamps (async_mem_monitor (snd (pre_fwd_exec \<lparr>training = True\<rparr> 1 MemTracerOpHook_init))) = [] \<and>
   time_stamps (async_mem_monitor (snd (post_iter 2
     (snd (pre_fwd_exec \<lparr>training = True\<rparr> 1 MemTracerOpHook_init))))) = [2] \<and>
   \<not> keep_measuring (async_mem_monitor (snd (post_iter 2
     (snd (pre_fwd_exec \<lparr>training = True\<rparr> 1 MemTracerOpHook_init))))) \<and>
   snd (post_iter 2 (snd (pre_fwd_exec \<lparr>training = True\<rparr> 1 MemTracerOpHook_init))) \<noteq>
     snd (pre_fwd_exec \<lparr>training = True\<rparr> 1 MemTracerOpHook_init)"
proof -
  let ?h = "snd (pre_fwd_exec \<lparr>training = True\<rparr> 1 MemTracerOpHook_init)"
  have a: "keep_measuring (async_mem_monitor ?h)" "time_stamps (async_mem_monitor ?h) = []"
    by (simp_all add: pre_fwd_exec_def MemTracerOpHook_init_def AsyncMemoryMonitor_init_def
        is_measuring_def start_def)
  have b: "time_stamps (async_mem_monitor (snd (post_iter 2 ?h))) = [2]"
    "\<not> keep_measuring (async_mem_monitor (snd (post_iter 2 ?h)))"
    by (simp_all add: post_iter_def pre_fwd_exec_def MemTracerOpHook_init_def
        AsyncMemoryMonitor_init_def is_measuring_def start_def finish_def result.simps)
  from a b have "snd (post_iter 2 ?h) \<noteq> ?h" by auto
  with a b show ?thesis by blast
qed

text \<open>
  C9, amended. With a module that is not training, each of \<^verbatim>\<open>pre_fwd_exec\<close>,
  \<^verbatim>\<open>post_fwd_exec\<close>, \<^verbatim>\<open>pre_bwd_exec\<close> and \<^verbatim>\<open>post_bwd_exec\<close> ends normally and
  leaves the hook unchanged. \<^verbatim>\<open>post_iter\<close> has no training flag: it leaves the hook
  unchanged when the monitor is idle, and on a measuring monitor it leaves what
  \<^verbatim>\<open>finish()\<close> leaves, a monitor that is idle.
\<close>

theorem handlers_noop_when_not_training:
  "(\<not> training mdl \<longrightarrow>
      pre_fwd_exec mdl now h = (Inr (), h) \<and> post_fwd_exec mdl now h = (Inr (), h) \<and>
      pre_bwd_exec mdl now h = (Inr (), h) \<and> post_bwd_exec mdl now h = (Inr (), h)) \<and>
   (\<not> keep_measuring (async_mem_monitor h) \<longrightarrow> post_iter now h = (Inr (), h)) \<and>
   (keep_measuring (async_mem_monitor h) \<longrightarrow>
      snd (post_iter now h) = h\<lparr>async_mem_monitor := snd (finish now (async_mem_monitor h))\<rparr> \<and>
      \<not> keep_measuring (async_mem_monitor (snd (post_iter now h))))"
proof -
  have "\<not> keep_measuring (snd (finish now (async_mem_monitor h)))"
    by (simp add: finish_def Let_def split: option.splits)
  then show ?thesis
    by (auto simp: pre_fwd_exec_def post_fwd_exec_def pre_bwd_exec_def post_bwd_exec_def
      post_iter_def is_measuring_def split: prod.splits sum.splits)
qed

theorem handlers_noop_when_not_training_witness:
  "\<not> training \<lparr>training = False\<rparr> \<and>
   keep_measuring (async_mem_monitor (exec Start MemTracerOpHook_init)) \<and>
   \<not> keep_measuring (async_mem_monitor MemTracerOpHook_init) \<and>
   pre_fwd_exec \<lparr>training = False\<rparr> 1 (exec Start MemTracerOpHook_init) = (Inr (), exec Start MemTracerOpHook_init) \<and>
   post_fwd_exec \<lparr>training = False\<rparr> 1 (exec Start MemTracerOpHook_init) = (Inr (), exec Start MemTracerOpHook_init) \<and>
   pre_bwd_exec \<lparr>training = False\<rparr> 1 (exec Start MemTracerOpHook_init) = (Inr (), exec Start MemTracerOpHook_init) \<and>
   post_bwd_exec \<lparr>training = False\<rparr> 1 (exec Start MemTracerOpHook_init) = (Inr (), exec Start MemTracerOpHook_init) \<and>
   post_iter 1 MemTracerOpHook_init = (Inr (), MemTracerOpHook_init) \<and>
   time_stamps (async_mem_monitor (snd (post_iter 1 (exec Start MemTracerOpHook_init)))) = [1]"
  using handlers_noop_when_not_training [of "\<lparr>training = False\<rparr>" 1 "exec Start MemTracerOpHook_init"]
    handlers_noop_when_not_training [of "\<lparr>training = False\<rparr>" 1 MemTracerOpHook_init]
  by (simp add: MemTracerOpHook_init_def AsyncMemoryMonitor_init_def start_def finish_def result.simps)

subsection \<open>The invariant of the series\<close>

lemma finish_series:
  "(time_stamps (snd (finish now m)) = time_stamps m \<and> mem_stats (snd (finish now m)) = mem_stats m) \<or>
   (keep_measuring m \<and>
    (\<exists>u. time_stamps (snd (finish now m)) = time_stamps m @ [now] \<and>
         mem_stats (snd (finish now m)) = mem_stats m @ [u]))"
  by (simp add: finish_def Let_def split: option.splits)

lemma pre_fwd_exec_series:
  "(time_stamps (async_mem_monitor (snd (pre_fwd_exec mdl now h))) = time_stamps (async_mem_monitor h) \<and>
    mem_stats (async_mem_monitor (snd (pre_fwd_exec mdl now h))) = mem_stats (async_mem_monitor h)) \<or>
   (time_stamps (async_mem_monitor (snd (pre_fwd_exec mdl now h))) =
      time_stamps (snd (finish now (async_mem_monitor h))) \<and>
    mem_stats (async_mem_monitor (snd (pre_fwd_exec mdl now h))) =
      mem_stats (snd (finish now (async_mem_monitor h))))"
  by (cases "finish now (async_mem_monitor h)")
     (auto simp: pre_fwd_exec_def start_def split: sum.splits)

lemma post_fwd_exec_series:
  "(time_stamps (async_mem_monitor (snd (post_fwd_exec mdl now h))) = time_stamps (async_mem_monitor h) \<and>
    mem_stats (async_mem_monitor (snd (post_fwd_exec mdl now h))) = mem_stats (async_mem_monitor h)) \<or>
   (time_stamps (async_mem_monitor (snd (post_fwd_exec mdl now h))) =
      time_stamps (snd (finish now (async_mem_monitor h))) \<and>
    mem_stats (async_mem_monitor (snd (post_fwd_exec mdl now h))) =
      mem_stats (snd (finish now (async_mem_monitor h))))"
  by (cases "finish now (async_mem_monitor h)")
     (auto simp: post_fwd_exec_def split: sum.splits)

lemma post_bwd_exec_series:
  "(time_stamps (async_mem_monitor (snd (post_bwd_exec mdl now h))) = time_stamps (async_mem_monitor h) \<and>
    mem_stats (async_mem_monitor (snd (post_bwd_exec mdl now h))) = mem_stats (async_mem_monitor h)) \<or>
   (time_stamps (async_mem_monitor (snd (post_bwd_exec mdl now h))) =
      time_stamps (snd (finish now (async_mem_monitor h))) \<and>
    mem_stats (async_mem_monitor (snd (post_bwd_exec mdl now h))) =
      mem_stats (snd (finish now (async_mem_monitor h))))"
  by (cases "finish now (async_mem_monitor h)")
     (auto simp: post_bwd_exec_def split: sum.splits)

lemma post_iter_series:
  "(time_stamps (async_mem_monitor (snd (post_iter now h))) = time_stamps (async_mem_monitor h) \<and>
    mem_stats (async_mem_monitor (snd (post_iter now h))) = mem_stats (async_mem_monitor h)) \<or>
   (time_stamps (async_mem_monitor (snd (post_iter now h))) =
      time_stamps (snd (finish now (async_mem_monitor h))) \<and>
    mem_stats (async_mem_monitor (snd (post_iter now h))) =
      mem_stats (snd (finish now (async_mem_monitor h))))"
  by (cases "finish now (async_mem_monitor h)")
     (auto simp: post_iter_def split: sum.splits)

lemma show_mem_stats_lengths:
  "length (time_stamps (async_mem_monitor (snd (show_mem_stats h)))) =
     length (time_stamps (async_mem_monitor h)) \<and>
   length (mem_stats (async_mem_monitor (snd (show_mem_stats h)))) =
     length (mem_stats (async_mem_monitor h))"
  by (simp add: show_mem_stats_def Let_def split: sum.splits)

text \<open>A call changes the series either not at all in length, or as one \<^verbatim>\<open>finish()\<close> does.\<close>

lemma exec_series:
  "(\<exists>now. (time_stamps (async_mem_monitor (exec c h)) =
             time_stamps (snd (finish now (async_mem_monitor h))) \<and>
           mem_stats (async_mem_monitor (exec c h)) =
             mem_stats (snd (finish now (async_mem_monitor h))))) \<or>
   (length (time_stamps (async_mem_monitor (exec c h))) = length (time_stamps (async_mem_monitor h)) \<and>
    length (mem_stats (async_mem_monitor (exec c h))) = length (mem_stats (async_mem_monitor h)))"
proof (cases c)
  case (PreFwdExec mdl now)
  with pre_fwd_exec_series [of mdl now h] show ?thesis by auto
next
  case (PostFwdExec mdl now)
  with post_fwd_exec_series [of mdl now h] show ?thesis by auto
next
  case (PreBwdExec mdl now)
  with pre_fwd_exec_series [of mdl now h] show ?thesis
    by (auto simp: pre_bwd_exec_def pre_fwd_exec_def)
next
  case (PostBwdExec mdl now)
  with post_bwd_exec_series [of mdl now h] show ?thesis by auto
next
  case (PostIter now)
  with post_iter_series [of now h] show ?thesis by auto
next
  case ShowMemStats
  with show_mem_stats_lengths [of h] show ?thesis by simp
next
  case (Finish now)
  then show ?thesis by auto
qed (simp_all add: set_interval_def start_def tick_def)

lemma exec_series_inv: "series_inv h \<Longrightarrow> series_inv (exec c h)"
proof -
  assume i: "series_inv h"
  from exec_series [of c h] show ?thesis
  proof
    assume "\<exists>now. time_stamps (async_mem_monitor (exec c h)) =
             time_stamps (snd (finish now (async_mem_monitor h))) \<and>
           mem_stats (async_mem_monitor (exec c h)) =
             mem_stats (snd (finish now (async_mem_monitor h)))"
    then obtain now where
      e: "time_stamps (async_mem_monitor (exec c h)) = time_stamps (snd (finish now (async_mem_monitor h)))"
         "mem_stats (async_mem_monitor (exec c h)) = mem_stats (snd (finish now (async_mem_monitor h)))"
      by blast
    from finish_series [of now "async_mem_monitor h"] i show ?thesis
      unfolding series_inv_def e by auto
  next
    assume "length (time_stamps (async_mem_monitor (exec c h))) = length (time_stamps (async_mem_monitor h)) \<and>
      length (mem_stats (async_mem_monitor (exec c h))) = length (mem_stats (async_mem_monitor h))"
    with i show ?thesis by (simp add: series_inv_def)
  qed
qed

lemma run_series_inv: "series_inv h \<Longrightarrow> series_inv (run cs h)"
  unfolding run_def by (induction cs arbitrary: h) (simp_all add: exec_series_inv)

text \<open>
  C8. The two lists of the series have the same length after every run of calls on a
  new hook, and every call preserves the equality from any hook that satisfies it. A
  call either keeps the length of both lists, or the monitor was measuring and the
  two lists are those \<^verbatim>\<open>finish()\<close> leaves, each longer by exactly one: the series
  grows through \<^verbatim>\<open>finish()\<close> only.
\<close>

theorem series_lengths_invariant:
  "series_inv (run cs MemTracerOpHook_init) \<and>
   (series_inv h \<longrightarrow> series_inv (exec c h)) \<and>
   ((length (time_stamps (async_mem_monitor (exec c h))) = length (time_stamps (async_mem_monitor h)) \<and>
     length (mem_stats (async_mem_monitor (exec c h))) = length (mem_stats (async_mem_monitor h))) \<or>
    (\<exists>now. keep_measuring (async_mem_monitor h) \<and>
       time_stamps (async_mem_monitor (exec c h)) = time_stamps (snd (finish now (async_mem_monitor h))) \<and>
       mem_stats (async_mem_monitor (exec c h)) = mem_stats (snd (finish now (async_mem_monitor h))) \<and>
       length (time_stamps (async_mem_monitor (exec c h))) = Suc (length (time_stamps (async_mem_monitor h))) \<and>
       length (mem_stats (async_mem_monitor (exec c h))) = Suc (length (mem_stats (async_mem_monitor h)))))"
proof -
  have "series_inv MemTracerOpHook_init"
    by (simp add: series_inv_def MemTracerOpHook_init_def AsyncMemoryMonitor_init_def)
  then have a: "series_inv (run cs MemTracerOpHook_init)" by (rule run_series_inv)
  have b: "series_inv h \<longrightarrow> series_inv (exec c h)" by (blast intro: exec_series_inv)
  have c: "(length (time_stamps (async_mem_monitor (exec c h))) = length (time_stamps (async_mem_monitor h)) \<and>
     length (mem_stats (async_mem_monitor (exec c h))) = length (mem_stats (async_mem_monitor h))) \<or>
    (\<exists>now. keep_measuring (async_mem_monitor h) \<and>
       time_stamps (async_mem_monitor (exec c h)) = time_stamps (snd (finish now (async_mem_monitor h))) \<and>
       mem_stats (async_mem_monitor (exec c h)) = mem_stats (snd (finish now (async_mem_monitor h))) \<and>
       length (time_stamps (async_mem_monitor (exec c h))) = Suc (length (time_stamps (async_mem_monitor h))) \<and>
       length (mem_stats (async_mem_monitor (exec c h))) = Suc (length (mem_stats (async_mem_monitor h))))"
    using exec_series [of c h]
  proof
    assume "\<exists>now. time_stamps (async_mem_monitor (exec c h)) =
             time_stamps (snd (finish now (async_mem_monitor h))) \<and>
           mem_stats (async_mem_monitor (exec c h)) =
             mem_stats (snd (finish now (async_mem_monitor h)))"
    then obtain now where
      e: "time_stamps (async_mem_monitor (exec c h)) = time_stamps (snd (finish now (async_mem_monitor h)))"
         "mem_stats (async_mem_monitor (exec c h)) = mem_stats (snd (finish now (async_mem_monitor h)))"
      by blast
    from finish_series [of now "async_mem_monitor h"] show ?thesis
    proof
      assume "time_stamps (snd (finish now (async_mem_monitor h))) = time_stamps (async_mem_monitor h) \<and>
        mem_stats (snd (finish now (async_mem_monitor h))) = mem_stats (async_mem_monitor h)"
      with e show ?thesis by simp
    next
      assume "keep_measuring (async_mem_monitor h) \<and>
        (\<exists>u. time_stamps (snd (finish now (async_mem_monitor h))) = time_stamps (async_mem_monitor h) @ [now] \<and>
             mem_stats (snd (finish now (async_mem_monitor h))) = mem_stats (async_mem_monitor h) @ [u])"
      with e have "keep_measuring (async_mem_monitor h) \<and>
       time_stamps (async_mem_monitor (exec c h)) = time_stamps (snd (finish now (async_mem_monitor h))) \<and>
       mem_stats (async_mem_monitor (exec c h)) = mem_stats (snd (finish now (async_mem_monitor h))) \<and>
       length (time_stamps (async_mem_monitor (exec c h))) = Suc (length (time_stamps (async_mem_monitor h))) \<and>
       length (mem_stats (async_mem_monitor (exec c h))) = Suc (length (mem_stats (async_mem_monitor h)))"
        by auto
      then show ?thesis by blast
    qed
  next
    assume "length (time_stamps (async_mem_monitor (exec c h))) = length (time_stamps (async_mem_monitor h)) \<and>
      length (mem_stats (async_mem_monitor (exec c h))) = length (mem_stats (async_mem_monitor h))"
    then show ?thesis by blast
  qed
  from a b c show ?thesis by blast
qed

theorem series_lengths_invariant_witness:
  "series_inv (run [Start, Tick 8, Start, ShowMemStats] MemTracerOpHook_init) \<and>
   series_inv (exec Start MemTracerOpHook_init) \<and>
   series_inv (exec (PostIter 3) (exec Start MemTracerOpHook_init)) \<and>
   length (time_stamps (async_mem_monitor (exec (PostIter 3) (exec Start MemTracerOpHook_init)))) = 1 \<and>
   length (mem_stats (async_mem_monitor (exec (PostIter 3) (exec Start MemTracerOpHook_init)))) = 1"
proof -
  have i: "series_inv (exec Start MemTracerOpHook_init)"
    by (simp add: series_inv_def MemTracerOpHook_init_def AsyncMemoryMonitor_init_def start_def)
  have l: "length (time_stamps (async_mem_monitor (exec (PostIter 3) (exec Start MemTracerOpHook_init)))) = 1"
    "length (mem_stats (async_mem_monitor (exec (PostIter 3) (exec Start MemTracerOpHook_init)))) = 1"
    by (simp_all add: MemTracerOpHook_init_def AsyncMemoryMonitor_init_def start_def post_iter_def
        is_measuring_def finish_def result.simps)
  from series_lengths_invariant [of "[Start, Tick 8, Start, ShowMemStats]"
      "exec Start MemTracerOpHook_init" "PostIter 3"] i l
  show ?thesis by blast
qed

end
